theory Spec2Isabelle
  imports Main "HOL-Library.AList"
begin

section \<open>Data model\<close>

text \<open>
  Global attributes of a dataset are a Python dict from names to values. A dict keeps
  insertion order, so it is an association list read with \<open>map_of\<close> and written with
  \<open>AList.update\<close> (an existing key keeps its place and takes the new value, a new key
  goes to the end).
\<close>

type_synonym attrs = "(string \<times> string) list"

text \<open>A one-dimensional labelled array: the dimension it runs over and its values.\<close>

record 'a var =
  var_dim :: string
  var_values :: "'a list"

text \<open>
  The labelled-array container (\<open>xr.Dataset\<close>) as far as \<open>combine.py\<close> reads and writes it:
  dimension sizes, variables by name, split by the type of their elements
  (timestamps as integer nanoseconds, strings, attribute snapshots), and global attrs.
\<close>

record dataset =
  ds_dims :: "string \<rightharpoonup> nat"
  ds_times :: "string \<rightharpoonup> int var"
  ds_strs :: "string \<rightharpoonup> string option var"
  ds_attr_vars :: "string \<rightharpoonup> attrs list"
  ds_attrs :: attrs

text \<open>
  \<open>EchoData\<close>: the model tag, the two origin paths, and one optional dataset per group
  name (\<open>getattr(echodata, group)\<close> is \<open>groups echodata group\<close>, \<open>None\<close> when absent).
\<close>

record echodata =
  sonar_model :: "string option"
  source_file :: "string option"
  converted_raw_path :: "string option"
  groups :: "string \<rightharpoonup> dataset"

text \<open>\<open>EchoData()\<close>: every field \<open>None\<close>.\<close>

definition EchoData :: echodata where
  "EchoData = \<lparr>sonar_model = None, source_file = None, converted_raw_path = None,
     groups = Map.empty\<rparr>"

datatype error =
    ValueError string
  | MergeError string
  | KeyError string
  | TypeError string
  | AttributeError string
  | IndexError string

section \<open>Model validation (combine.py, lines 110 to 121)\<close>

definition msg_none :: string where
  "msg_none = ''all EchoData objects must have non-None sonar_model values''"

definition msg_differ :: string where
  "msg_differ = ''all EchoData objects must have the same sonar_model value''"

text \<open>
  The loop over \<open>echodatas\<close> with its accumulator \<open>sonar_model\<close> (initially \<open>None\<close>);
  it returns the accumulator, or the error of the first record that raises.
\<close>

fun check_models :: "string option \<Rightarrow> echodata list \<Rightarrow> error + string option" where
  "check_models acc [] = Inr acc"
| "check_models acc (e # es) =
     (case sonar_model e of
        None \<Rightarrow> Inl (ValueError msg_none)
      | Some m \<Rightarrow>
          (case acc of
             None \<Rightarrow> check_models (Some m) es
           | Some a \<Rightarrow> if m \<noteq> a then Inl (ValueError msg_differ) else check_models acc es))"

section \<open>Attributes (combine.py, lines 13 to 22, and the library's policies)\<close>

text \<open>\<open>dict.update\<close>: the pairs of the second dict are written into the first, in order.\<close>

definition dict_update :: "attrs \<Rightarrow> attrs \<Rightarrow> attrs" where
  "dict_update a b = fold (\<lambda>(k, v). AList.update k v) b a"

fun union_attrs_loop :: "attrs \<Rightarrow> dataset list \<Rightarrow> attrs" where
  "union_attrs_loop total_attrs [] = total_attrs"
| "union_attrs_loop total_attrs (ds # datasets) =
     union_attrs_loop (dict_update total_attrs (ds_attrs ds)) datasets"

definition union_attrs :: "dataset list \<Rightarrow> attrs" where
  "union_attrs datasets = union_attrs_loop [] datasets"

text \<open>
  The \<open>combine_attrs\<close> argument is handed to \<open>xr.combine_nested\<close>, a routine of the xarray
  library and not of this repository. Its handling of attrs is modelled on the release the
  docstring of \<open>combine_echodata\<close> links to: \<open>drop\<close> gives the empty dict, \<open>override\<close> the
  first dict, \<open>no_conflicts\<close> the union unless a shared key has two values, \<open>identical\<close>
  the first dict unless another one differs, and any other string is refused.
\<close>

definition dict_equiv :: "attrs \<Rightarrow> attrs \<Rightarrow> bool" where
  "dict_equiv a b \<longleftrightarrow>
     list_all (\<lambda>k. map_of a k = map_of b k) (map fst a) \<and>
     list_all (\<lambda>k. map_of b k = map_of a k) (map fst b)"

definition compatible :: "attrs \<Rightarrow> attrs \<Rightarrow> bool" where
  "compatible a b \<longleftrightarrow>
     list_all (\<lambda>(k, v). case map_of a k of None \<Rightarrow> True | Some w \<Rightarrow> w = v) b"

fun no_conflicts_loop :: "attrs \<Rightarrow> attrs list \<Rightarrow> error + attrs" where
  "no_conflicts_loop result [] = Inr result"
| "no_conflicts_loop result (a # as) =
     (if compatible result a then no_conflicts_loop (dict_update result a) as
      else Inl (MergeError ''combine_attrs=no_conflicts, but some values are not the same''))"

fun identical_loop :: "attrs \<Rightarrow> attrs list \<Rightarrow> error + attrs" where
  "identical_loop result [] = Inr result"
| "identical_loop result (a # as) =
     (if dict_equiv result a then identical_loop result as
      else Inl (MergeError ''combine_attrs=identical, but attrs differ''))"

definition msg_unrecognised :: "string \<Rightarrow> string" where
  "msg_unrecognised combine_attrs = ''Unrecognised value for combine_attrs='' @ combine_attrs"

fun merge_attrs :: "attrs list \<Rightarrow> string \<Rightarrow> error + attrs" where
  "merge_attrs [] combine_attrs = Inr []"
| "merge_attrs (a # as) combine_attrs =
     (if combine_attrs = ''drop'' then Inr []
      else if combine_attrs = ''override'' then Inr a
      else if combine_attrs = ''no_conflicts'' then no_conflicts_loop a as
      else if combine_attrs = ''identical'' then identical_loop a as
      else Inl (ValueError (msg_unrecognised combine_attrs)))"

section \<open>Concatenation along one dimension (the library's \<open>combine_nested\<close>)\<close>

text \<open>
  Of the library's concatenation the model keeps what the container interface promises:
  the size along the concatenation dimension is the sum of the inputs' sizes (an input
  without that dimension counts as one slice), a variable over that dimension holds the
  inputs' values one after the other in input order, everything else is taken from the
  first input, and the attrs are merged by \<open>merge_attrs\<close>. The variable-inclusion mode
  \<open>data_vars\<close> is passed on as the source passes it and is not interpreted.
\<close>

definition dim_size :: "string \<Rightarrow> dataset \<Rightarrow> nat" where
  "dim_size d ds = (case ds_dims ds d of None \<Rightarrow> 1 | Some n \<Rightarrow> n)"

definition values_of :: "(string \<rightharpoonup> 'a var) \<Rightarrow> string \<Rightarrow> 'a list" where
  "values_of vars n = (case vars n of None \<Rightarrow> [] | Some v \<Rightarrow> var_values v)"

definition concat_vars ::
  "string \<Rightarrow> (dataset \<Rightarrow> string \<rightharpoonup> 'a var) \<Rightarrow> dataset \<Rightarrow> dataset list \<Rightarrow> string \<rightharpoonup> 'a var" where
  "concat_vars d sel ds0 dss = (\<lambda>n.
     case sel ds0 n of
       None \<Rightarrow> None
     | Some v \<Rightarrow>
         if var_dim v = d
         then Some (v\<lparr>var_values := concat (map (\<lambda>ds. values_of (sel ds) n) dss)\<rparr>)
         else Some v)"

definition empty_dataset :: dataset where
  "empty_dataset = \<lparr>ds_dims = Map.empty, ds_times = Map.empty, ds_strs = Map.empty,
     ds_attr_vars = Map.empty, ds_attrs = []\<rparr>"

fun combine_nested :: "dataset list \<Rightarrow> string \<Rightarrow> string \<Rightarrow> string \<Rightarrow> error + dataset" where
  "combine_nested [] concat_dim data_vars combine_attrs = Inr empty_dataset"
| "combine_nested (ds0 # rest) concat_dim data_vars combine_attrs =
     (case merge_attrs (map ds_attrs (ds0 # rest)) combine_attrs of
        Inl e \<Rightarrow> Inl e
      | Inr a \<Rightarrow> Inr
          \<lparr>ds_dims = (ds_dims ds0)(concat_dim \<mapsto> sum_list (map (dim_size concat_dim) (ds0 # rest))),
           ds_times = concat_vars concat_dim ds_times ds0 (ds0 # rest),
           ds_strs = concat_vars concat_dim ds_strs ds0 (ds0 # rest),
           ds_attr_vars = ds_attr_vars ds0,
           ds_attrs = a\<rparr>)"

text \<open>
  \<open>Dataset.drop_dims(name, errors="ignore")\<close>: the dimension goes, with every variable over
  it; a dataset without the dimension is returned as it is.
\<close>

definition drop_vars_over :: "string \<Rightarrow> (string \<rightharpoonup> 'a var) \<Rightarrow> string \<rightharpoonup> 'a var" where
  "drop_vars_over d vars = (\<lambda>n.
     case vars n of None \<Rightarrow> None | Some v \<Rightarrow> if var_dim v = d then None else Some v)"

definition drop_dims :: "string \<Rightarrow> dataset \<Rightarrow> dataset" where
  "drop_dims d ds =
     ds\<lparr>ds_dims := (ds_dims ds)(d := None),
        ds_times := drop_vars_over d (ds_times ds),
        ds_strs := drop_vars_over d (ds_strs ds)\<rparr>"

section \<open>Provenance (combine.py, lines 25 to 36)\<close>

text \<open>
  \<open>ECHOPYPE_VERSION\<close> and the clock reading \<open>datetime.utcnow().isoformat(timespec="seconds")\<close>
  come from outside \<open>combine.py\<close>; they are parameters here.
\<close>

definition assemble_combined_provenance ::
  "string \<Rightarrow> string \<Rightarrow> string option list \<Rightarrow> dataset" where
  "assemble_combined_provenance version utcnow input_paths =
     \<lparr>ds_dims = [''file'' \<mapsto> length input_paths],
      ds_times = Map.empty,
      ds_strs = [''src_filenames'' \<mapsto> \<lparr>var_dim = ''file'', var_values = input_paths\<rparr>],
      ds_attr_vars = Map.empty,
      ds_attrs = [(''conversion_software_name'', ''echopype''),
                  (''conversion_software_version'', version),
                  (''conversion_time'', utcnow @ ''Z'')]\<rparr>"

text \<open>The list comprehension of lines 135 to 140: one origin identifier per record.\<close>

definition input_path :: "echodata \<Rightarrow> string option" where
  "input_path e = (if source_file e \<noteq> None then source_file e else converted_raw_path e)"

section \<open>Configuration read by the combiner\<close>

text \<open>
  \<open>SONAR_MODELS\<close> (from \<open>..core\<close>) and \<open>EchoData.group_map\<close> are not part of \<open>combine.py\<close>.
  They are parameters: a table from model tags to the two per-group dictionaries, and the
  ordered list of group names.
\<close>

record model_spec =
  concat_dims :: "string \<rightharpoonup> string"
  concat_data_vars :: "string \<rightharpoonup> string"

record config =
  group_map :: "string list"
  SONAR_MODELS :: "string \<rightharpoonup> model_spec"
  ECHOPYPE_VERSION :: string
  utcnow :: string

text \<open>
  \<open>d.get(group, d["default"])\<close>: Python evaluates the fallback first, so a dictionary
  without \<open>default\<close> raises even when the group has an entry.
\<close>

definition get_or_default :: "(string \<rightharpoonup> string) \<Rightarrow> string \<Rightarrow> error + string" where
  "get_or_default d grp =
     (case d ''default'' of
        None \<Rightarrow> Inl (KeyError ''default'')
      | Some dflt \<Rightarrow> Inr (case d grp of None \<Rightarrow> dflt | Some v \<Rightarrow> v))"

section \<open>Time reversal: detection and repair\<close>

text \<open>
  Modelled from the spec: \<open>exist_reversed_time\<close> of the module \<open>..qc\<close>, which is not among
  the sources. The spec's \<open>detect\<close>: true iff some element is less than or equal to its
  predecessor.
\<close>

fun exist_reversed_time :: "int list \<Rightarrow> bool" where
  "exist_reversed_time [] = False"
| "exist_reversed_time [x] = False"
| "exist_reversed_time (x # y # ys) = (y \<le> x \<or> exist_reversed_time (y # ys))"

text \<open>
  Modelled from the spec: the pass \<open>correct\<close> behind \<open>coerce_increasing_time\<close> of the module
  \<open>..qc\<close>, which is not among the sources. One pass from the left with a running offset,
  initially zero. Where the current value (the raw value plus the offset) does not exceed
  the previous corrected value, the offset grows by the previous corrected value minus the
  current value plus one increment (one nanosecond, the unit of the timestamps), so that
  the corrected value is exactly one increment above the previous corrected value; the
  offset is then applied to this element and to those after it.
\<close>

fun correct_from :: "int \<Rightarrow> int \<Rightarrow> int list \<Rightarrow> int list" where
  "correct_from offset prev [] = []"
| "correct_from offset prev (x # xs) =
     (let offset' = (if x + offset \<le> prev then offset + (prev - (x + offset) + 1) else offset)
      in (x + offset') # correct_from offset' (x + offset') xs)"

fun correct :: "int list \<Rightarrow> int list" where
  "correct [] = []"
| "correct (x # xs) = x # correct_from 0 x xs"

text \<open>
  Modelled from the spec: \<open>coerce_increasing_time\<close> of the module \<open>..qc\<close>, which is not among
  the sources. It writes the corrected sequence into the \<open>ping_time\<close> of the dataset it is
  given.
\<close>

definition coerce_increasing_time :: "dataset \<Rightarrow> dataset" where
  "coerce_increasing_time ds =
     (case ds_times ds ''ping_time'' of
        None \<Rightarrow> ds
      | Some pt \<Rightarrow>
          ds\<lparr>ds_times := (ds_times ds)(''ping_time'' \<mapsto> pt\<lparr>var_values := correct (var_values pt)\<rparr>)\<rparr>)"

section \<open>The combiner (combine.py, lines 106 to 218)\<close>

text \<open>
  The state of one call: the record under construction, the two cached time coordinates,
  the attrs snapshots (a dict keyed by group name), and the warnings emitted so far.
\<close>

record state =
  result :: echodata
  old_ping_time :: "int var option"
  new_ping_time :: "int var option"
  old_attrs :: "(string \<times> attrs list) list"
  warnings :: "string list"

definition msg_reversal :: string where
  "msg_reversal = ''EK60 ping_time reversal detected; the ping times will be corrected (see https://github.com/OSOceanAcoustics/echopype/pull/297)''"

text \<open>Lines 143 to 147: the sub-datasets of the records that have the group, in input order.\<close>

definition group_datasets :: "echodata list \<Rightarrow> string \<Rightarrow> dataset list" where
  "group_datasets echodatas grp = List.map_filter (\<lambda>echodata. groups echodata grp) echodatas"

text \<open>
  Lines 152 to 168: the two table lookups, the concatenation, and under
  \<open>overwrite_conflicts\<close> the union of the attrs written over the dropped ones.
\<close>

definition concat_group ::
  "config \<Rightarrow> string option \<Rightarrow> string \<Rightarrow> string \<Rightarrow> dataset list \<Rightarrow> error + dataset" where
  "concat_group cfg sm combine_attrs grp gds =
     (case sm of
        None \<Rightarrow> Inl (KeyError ''None'')
      | Some m \<Rightarrow>
     (case SONAR_MODELS cfg m of
        None \<Rightarrow> Inl (KeyError m)
      | Some spec \<Rightarrow>
     (case get_or_default (concat_dims spec) grp of
        Inl e \<Rightarrow> Inl e
      | Inr concat_dim \<Rightarrow>
     (case get_or_default (concat_data_vars spec) grp of
        Inl e \<Rightarrow> Inl e
      | Inr data_vars \<Rightarrow>
     (case combine_nested gds concat_dim data_vars
             (if combine_attrs = ''overwrite_conflicts'' then ''drop'' else combine_attrs) of
        Inl e \<Rightarrow> Inl e
      | Inr combined_group \<Rightarrow>
          if combine_attrs = ''overwrite_conflicts''
          then Inr (combined_group\<lparr>ds_attrs :=
                      dict_update (ds_attrs combined_group) (union_attrs gds)\<rparr>)
          else Inr combined_group)))))"

text \<open>
  Lines 174 to 188: \<open>astype("<Un")\<close> turns every element into a string of at most \<open>n\<close>
  characters; reading a variable the group does not have raises \<open>KeyError\<close>.
\<close>

definition astype :: "nat \<Rightarrow> string option var \<Rightarrow> string option var" where
  "astype n v =
     v\<lparr>var_values := map (\<lambda>x. Some (take n (case x of None \<Rightarrow> ''None'' | Some s \<Rightarrow> s)))
                          (var_values v)\<rparr>"

definition astype_var :: "string \<Rightarrow> nat \<Rightarrow> dataset \<Rightarrow> error + dataset" where
  "astype_var name n ds =
     (case ds_strs ds name of
        None \<Rightarrow> Inl (KeyError name)
      | Some v \<Rightarrow> Inr (ds\<lparr>ds_strs := (ds_strs ds)(name \<mapsto> astype n v)\<rparr>))"

definition normalize_beam :: "string option \<Rightarrow> string \<Rightarrow> dataset \<Rightarrow> error + dataset" where
  "normalize_beam sm grp combined_group =
     (if grp = ''beam'' then
        (if sm = Some ''EK80'' then
           (case astype_var ''transceiver_software_version'' 10 combined_group of
              Inl e \<Rightarrow> Inl e
            | Inr g \<Rightarrow> astype_var ''channel_id'' 50 g)
         else if sm = Some ''EK60'' then
           (case astype_var ''gpt_software_version'' 10 combined_group of
              Inl e \<Rightarrow> Inl e
            | Inr g \<Rightarrow> astype_var ''channel_id'' 50 g)
         else Inr combined_group)
      else Inr combined_group)"

text \<open>
  Lines 190 to 202. The test of line 190 reads the group's own \<open>ping_time\<close>; only when it
  shows a reversal is the cache looked at. The assignment of line 202 is the replacement
  of the variable by the cached one.
\<close>

definition has_reversal :: "dataset \<Rightarrow> bool" where
  "has_reversal combined_group =
     (case ds_times combined_group ''ping_time'' of
        None \<Rightarrow> False
      | Some pt \<Rightarrow> exist_reversed_time (var_values pt))"

definition repair_time :: "dataset \<Rightarrow> state \<Rightarrow> dataset \<times> state" where
  "repair_time combined_group s =
     (if has_reversal combined_group then
        (if old_ping_time s = None then
           (let corrected = coerce_increasing_time combined_group
            in (corrected,
                s\<lparr>warnings := warnings s @ [msg_reversal],
                  old_ping_time := ds_times combined_group ''ping_time'',
                  new_ping_time := ds_times corrected ''ping_time''\<rparr>))
         else
           (combined_group\<lparr>ds_times :=
              (ds_times combined_group)(''ping_time'' := new_ping_time s)\<rparr>, s))
      else (combined_group, s))"

text \<open>Lines 169 to 172: the attrs of the contributing sub-datasets, kept when there are several.\<close>

definition snapshot_attrs :: "string \<Rightarrow> dataset list \<Rightarrow> state \<Rightarrow> state" where
  "snapshot_attrs grp gds s =
     (if length gds > 1
      then s\<lparr>old_attrs := AList.update grp (map ds_attrs gds) (old_attrs s)\<rparr>
      else s)"

text \<open>Lines 204 to 207: drop the synthetic dimension and store the group.\<close>

definition store :: "string \<Rightarrow> dataset option \<Rightarrow> state \<Rightarrow> state" where
  "store grp combined_group s =
     s\<lparr>result := (result s)\<lparr>groups :=
          (groups (result s))(grp := map_option (drop_dims ''concat_dim'') combined_group)\<rparr>\<rparr>"

text \<open>The body of the loop over \<open>EchoData.group_map\<close>, lines 131 to 207.\<close>

definition process_group ::
  "config \<Rightarrow> echodata list \<Rightarrow> string option \<Rightarrow> string \<Rightarrow> string \<Rightarrow> state \<Rightarrow> error + state" where
  "process_group cfg echodatas sm combine_attrs grp s =
     (if grp = ''top'' \<or> grp = ''sonar'' then
        (case echodatas of
           [] \<Rightarrow> Inl (IndexError ''list index out of range'')
         | first # _ \<Rightarrow> Inr (store grp (groups first grp) s))
      else if grp = ''provenance'' then
        Inr (store grp
               (Some (assemble_combined_provenance (ECHOPYPE_VERSION cfg) (utcnow cfg)
                        (map input_path echodatas))) s)
      else
        (let gds = group_datasets echodatas grp in
         if length gds = 0 then
           Inr (s\<lparr>result := (result s)\<lparr>groups := (groups (result s))(grp := None)\<rparr>\<rparr>)
         else
           (case concat_group cfg sm combine_attrs grp gds of
              Inl e \<Rightarrow> Inl e
            | Inr combined_group \<Rightarrow>
                (let s1 = snapshot_attrs grp gds s
                 in case normalize_beam sm grp combined_group of
                      Inl e \<Rightarrow> Inl e
                    | Inr normalized \<Rightarrow>
                        (case repair_time normalized s1 of
                           (repaired, s2) \<Rightarrow> Inr (store grp (Some repaired) s2))))))"

fun process_groups ::
  "config \<Rightarrow> echodata list \<Rightarrow> string option \<Rightarrow> string \<Rightarrow> string list \<Rightarrow> state \<Rightarrow> error + state" where
  "process_groups cfg echodatas sm combine_attrs [] s = Inr s"
| "process_groups cfg echodatas sm combine_attrs (grp # grps) s =
     (case process_group cfg echodatas sm combine_attrs grp s of
        Inl e \<Rightarrow> Inl e
      | Inr s' \<Rightarrow> process_groups cfg echodatas sm combine_attrs grps s')"

text \<open>
  Lines 209 to 216: the uncorrected coordinate and the attrs snapshots go into the
  provenance group of the result; both statements fail when that group is \<open>None\<close>.
\<close>

definition save_old_ping_time :: "state \<Rightarrow> error + echodata" where
  "save_old_ping_time s =
     (case old_ping_time s of
        None \<Rightarrow> Inr (result s)
      | Some opt \<Rightarrow>
          (case groups (result s) ''provenance'' of
             None \<Rightarrow> Inl (TypeError ''NoneType object does not support item assignment'')
           | Some prov \<Rightarrow>
               Inr ((result s)\<lparr>groups := (groups (result s))(''provenance'' \<mapsto>
                      prov\<lparr>ds_times := (ds_times prov)(''old_ping_time'' \<mapsto> opt)\<rparr>)\<rparr>)))"

definition assign_attrs :: "(string \<times> attrs list) list \<Rightarrow> dataset \<Rightarrow> dataset" where
  "assign_attrs oa prov =
     fold (\<lambda>(grp, group_attrs) p.
             p\<lparr>ds_attr_vars := (ds_attr_vars p)(grp @ ''_attrs'' \<mapsto> group_attrs)\<rparr>) oa prov"

fun save_attrs :: "(string \<times> attrs list) list \<Rightarrow> string list \<Rightarrow> echodata \<Rightarrow> error + echodata" where
  "save_attrs oa [] r = Inr r"
| "save_attrs oa (grp # grps) r =
     (case groups r ''provenance'' of
        None \<Rightarrow> Inl (AttributeError ''NoneType object has no attribute assign'')
      | Some prov \<Rightarrow>
          save_attrs oa grps (r\<lparr>groups := (groups r)(''provenance'' \<mapsto> assign_attrs oa prov)\<rparr>))"

definition initial_state :: state where
  "initial_state = \<lparr>result = EchoData, old_ping_time = None, new_ping_time = None,
     old_attrs = [], warnings = []\<rparr>"

text \<open>
  \<open>combine_echodata\<close>: the returned record together with the warnings emitted on the way,
  or the exception raised.
\<close>

definition combine_echodata ::
  "config \<Rightarrow> echodata list \<Rightarrow> string \<Rightarrow> error + echodata \<times> string list" where
  "combine_echodata cfg echodatas combine_attrs =
     (if length echodatas = 0 then Inr (EchoData, [])
      else
        (case check_models None echodatas of
           Inl e \<Rightarrow> Inl e
         | Inr sm \<Rightarrow>
             (case process_groups cfg echodatas sm combine_attrs (group_map cfg) initial_state of
                Inl e \<Rightarrow> Inl e
              | Inr s \<Rightarrow>
                  (case save_old_ping_time s of
                     Inl e \<Rightarrow> Inl e
                   | Inr r \<Rightarrow>
                       (case save_attrs (old_attrs s) (map fst (old_attrs s)) r of
                          Inl e \<Rightarrow> Inl e
                        | Inr r' \<Rightarrow> Inr (r', warnings s))))))"

text \<open>The signature's default: \<open>combine_attrs="override"\<close> when the caller gives none.\<close>

definition combine_echodata_default ::
  "config \<Rightarrow> echodata list \<Rightarrow> error + echodata \<times> string list" where
  "combine_echodata_default cfg echodatas = combine_echodata cfg echodatas ''override''"

section \<open>Notions used to state the properties\<close>

text \<open>The three group names the loop does not concatenate.\<close>

definition special :: "string \<Rightarrow> bool" where
  "special grp \<longleftrightarrow> grp = ''top'' \<or> grp = ''sonar'' \<or> grp = ''provenance''"

text \<open>
  The group as it stands when line 190 is reached: concatenated (lines 152 to 168) and
  type-normalised (lines 174 to 188).
\<close>

definition built_group ::
  "config \<Rightarrow> string option \<Rightarrow> string \<Rightarrow> echodata list \<Rightarrow> string \<Rightarrow> error + dataset" where
  "built_group cfg sm combine_attrs echodatas grp =
     (case concat_group cfg sm combine_attrs grp (group_datasets echodatas grp) of
        Inl e \<Rightarrow> Inl e
      | Inr combined_group \<Rightarrow> normalize_beam sm grp combined_group)"

text \<open>A reversal is detected at a group: it is concatenated and line 190 holds of it.\<close>

definition detected ::
  "config \<Rightarrow> string option \<Rightarrow> string \<Rightarrow> echodata list \<Rightarrow> string \<Rightarrow> bool" where
  "detected cfg sm combine_attrs echodatas grp =
     (if special grp \<or> group_datasets echodatas grp = [] then False
      else (case built_group cfg sm combine_attrs echodatas grp of
              Inl e \<Rightarrow> False
            | Inr combined_group \<Rightarrow> has_reversal combined_group))"



text \<open>
  The group as lines 190 to 202 leave it, in terms of the state in which it is reached:
  untouched without a reversal, corrected when the cache is empty, and given the cached
  corrected coordinate otherwise.
\<close>

definition repaired :: "dataset \<Rightarrow> state \<Rightarrow> dataset" where
  "repaired nz s =
     (if has_reversal nz then
        (if old_ping_time s = None then coerce_increasing_time nz
         else nz\<lparr>ds_times := (ds_times nz)(''ping_time'' := new_ping_time s)\<rparr>)
      else nz)"

text \<open>What a call hands back, read off its outcome: a group, its time axis, the warnings.\<close>

definition returned_group :: "error + echodata \<times> string list \<Rightarrow> string \<Rightarrow> dataset option" where
  "returned_group outcome grp = (case outcome of Inl e \<Rightarrow> None | Inr (r, w) \<Rightarrow> groups r grp)"


definition returned_warnings :: "error + echodata \<times> string list \<Rightarrow> string list option" where
  "returned_warnings outcome = (case outcome of Inl e \<Rightarrow> None | Inr (r, w) \<Rightarrow> Some w)"

section \<open>Sample inputs\<close>

text \<open>
  A small configuration and a few records in the shape of converted EK60 files; the
  closed instances further down are evaluated on them.
\<close>

definition ek60_spec :: model_spec where
  "ek60_spec = \<lparr>concat_dims = [''default'' \<mapsto> ''ping_time'', ''platform'' \<mapsto> ''location_time''],
     concat_data_vars = [''default'' \<mapsto> ''minimal'']\<rparr>"

definition cfg0 :: config where
  "cfg0 = \<lparr>group_map = [''top'', ''environment'', ''provenance'', ''sonar'', ''vendor''],
     SONAR_MODELS = [''EK60'' \<mapsto> ek60_spec],
     ECHOPYPE_VERSION = ''0.5.0'',
     utcnow = ''2021-03-01T00:00:00''\<rparr>"

definition ed_a :: echodata where
  "ed_a = \<lparr>sonar_model = Some ''EK60'', source_file = Some ''a.raw'',
     converted_raw_path = None, groups = Map.empty\<rparr>"

definition ed_null :: echodata where
  "ed_null = \<lparr>sonar_model = None, source_file = Some ''n.raw'',
     converted_raw_path = None, groups = Map.empty\<rparr>"

definition time_axis :: "int list \<Rightarrow> int var" where
  "time_axis ts = \<lparr>var_dim = ''ping_time'', var_values = ts\<rparr>"

definition env1 :: dataset where
  "env1 = \<lparr>ds_dims = [''ping_time'' \<mapsto> 3], ds_times = [''ping_time'' \<mapsto> time_axis [10, 20, 15]],
     ds_strs = Map.empty, ds_attr_vars = Map.empty, ds_attrs = [(''a'', ''1'')]\<rparr>"

definition env2 :: dataset where
  "env2 = \<lparr>ds_dims = [''ping_time'' \<mapsto> 2], ds_times = [''ping_time'' \<mapsto> time_axis [30, 40]],
     ds_strs = Map.empty, ds_attr_vars = Map.empty,
     ds_attrs = [(''a'', ''2''), (''b'', ''3'')]\<rparr>"

definition ven1 :: dataset where
  "ven1 = \<lparr>ds_dims = [''ping_time'' \<mapsto> 3], ds_times = [''ping_time'' \<mapsto> time_axis [1, 2, 3]],
     ds_strs = Map.empty, ds_attr_vars = Map.empty, ds_attrs = []\<rparr>"

definition top_rev :: dataset where
  "top_rev = \<lparr>ds_dims = [''ping_time'' \<mapsto> 2], ds_times = [''ping_time'' \<mapsto> time_axis [2, 1]],
     ds_strs = Map.empty, ds_attr_vars = Map.empty, ds_attrs = []\<rparr>"

definition ed1 :: echodata where
  "ed1 = \<lparr>sonar_model = Some ''EK60'', source_file = Some ''a.raw'',
     converted_raw_path = None, groups = [''environment'' \<mapsto> env1, ''vendor'' \<mapsto> ven1]\<rparr>"

definition ed2 :: echodata where
  "ed2 = \<lparr>sonar_model = Some ''EK60'', source_file = None,
     converted_raw_path = Some ''b.zarr'', groups = [''environment'' \<mapsto> env2]\<rparr>"

definition ed_top :: echodata where
  "ed_top = \<lparr>sonar_model = Some ''EK60'', source_file = Some ''t.raw'',
     converted_raw_path = None, groups = [''top'' \<mapsto> top_rev]\<rparr>"

definition ven_rev :: dataset where
  "ven_rev = \<lparr>ds_dims = [''ping_time'' \<mapsto> 2], ds_times = [''ping_time'' \<mapsto> time_axis [5, 4]],
     ds_strs = Map.empty, ds_attr_vars = Map.empty, ds_attrs = []\<rparr>"


section \<open>The empty list and the validation of the model tags\<close>

text \<open>The two errors of lines 113 and 119; neither message carries a position.\<close>

definition is_validation_error :: "error \<Rightarrow> bool" where
  "is_validation_error e \<longleftrightarrow> e = ValueError msg_none \<or> e = ValueError msg_differ"

lemma check_models_error:
  "check_models acc es = Inl e \<Longrightarrow> is_validation_error e"
  by (induction es arbitrary: acc)
     (auto simp: is_validation_error_def split: option.splits if_splits)

lemma check_models_Some:
  "check_models (Some a) es = Inr r \<longleftrightarrow> r = Some a \<and> (\<forall>e\<in>set es. sonar_model e = Some a)"
  by (induction es) (auto split: option.splits)

lemma check_models_None:
  "check_models None es = Inr r \<longleftrightarrow>
     (case es of [] \<Rightarrow> r = None
      | e # _ \<Rightarrow> r = sonar_model e \<and> r \<noteq> None \<and> (\<forall>e'\<in>set es. sonar_model e' = r))"
  by (cases es) (auto simp: check_models_Some split: option.splits)

lemma check_models_ok_iff:
  "(\<exists>r. check_models None es = Inr r) \<longleftrightarrow>
     (\<forall>e\<in>set es. sonar_model e \<noteq> None) \<and>
     (\<forall>e\<in>set es. \<forall>e'\<in>set es. sonar_model e = sonar_model e')"
proof (cases es)
  case Nil
  then show ?thesis by simp
next
  case (Cons a as)
  have "(\<exists>r. check_models None es = Inr r) \<longleftrightarrow>
          sonar_model a \<noteq> None \<and> (\<forall>e'\<in>set es. sonar_model e' = sonar_model a)"
    unfolding check_models_None using Cons by simp
  also have "\<dots> \<longleftrightarrow> (\<forall>e\<in>set es. sonar_model e \<noteq> None) \<and>
     (\<forall>e\<in>set es. \<forall>e'\<in>set es. sonar_model e = sonar_model e')"
    using Cons by (metis list.set_intros(1))
  finally show ?thesis .
qed

lemma check_models_Inl_iff:
  "(\<exists>e. check_models None es = Inl e) \<longleftrightarrow>
     (\<exists>r\<in>set es. sonar_model r = None) \<or>
     (\<exists>r\<in>set es. \<exists>r'\<in>set es. sonar_model r \<noteq> sonar_model r')"
proof -
  have "(\<exists>e. check_models None es = Inl e) \<longleftrightarrow> \<not> (\<exists>r. check_models None es = Inr r)"
    by (cases "check_models None es") simp_all
  then show ?thesis unfolding check_models_ok_iff by simp
qed

lemma is_validation_error_simps [simp]:
  "\<not> is_validation_error (MergeError x)"
  "\<not> is_validation_error (KeyError x)"
  "\<not> is_validation_error (TypeError x)"
  "\<not> is_validation_error (AttributeError x)"
  "\<not> is_validation_error (IndexError x)"
  "\<not> is_validation_error (ValueError (msg_unrecognised p))"
  by (simp_all add: is_validation_error_def msg_none_def msg_differ_def msg_unrecognised_def)

lemma no_conflicts_loop_error:
  "no_conflicts_loop r as = Inl e \<Longrightarrow> \<not> is_validation_error e"
  by (induction as arbitrary: r) (auto split: if_splits)

lemma identical_loop_error:
  "identical_loop r as = Inl e \<Longrightarrow> \<not> is_validation_error e"
  by (induction as arbitrary: r) (auto split: if_splits)

lemma merge_attrs_error:
  "merge_attrs as p = Inl e \<Longrightarrow> \<not> is_validation_error e"
  by (cases as)
     (auto dest: no_conflicts_loop_error identical_loop_error split: if_splits)

lemma combine_nested_error:
  "combine_nested gds d v p = Inl e \<Longrightarrow> \<not> is_validation_error e"
  by (cases gds) (auto dest: merge_attrs_error split: sum.splits simp del: merge_attrs.simps)

lemma get_or_default_error:
  "get_or_default d g = Inl e \<Longrightarrow> \<not> is_validation_error e"
  by (auto simp: get_or_default_def split: option.splits)

lemma concat_group_error:
  "concat_group cfg sm p g gds = Inl e \<Longrightarrow> \<not> is_validation_error e"
  unfolding concat_group_def
  by (auto dest: combine_nested_error get_or_default_error split: option.splits sum.splits if_splits)

lemma astype_var_error:
  "astype_var n k ds = Inl e \<Longrightarrow> \<not> is_validation_error e"
  by (auto simp: astype_var_def split: option.splits)

lemma normalize_beam_error:
  "normalize_beam sm g ds = Inl e \<Longrightarrow> \<not> is_validation_error e"
  unfolding normalize_beam_def
  by (auto dest: astype_var_error split: sum.splits if_splits)

lemma process_group_error:
  "process_group cfg es sm p g s = Inl e \<Longrightarrow> \<not> is_validation_error e"
  unfolding process_group_def Let_def
  by (auto dest: concat_group_error normalize_beam_error split: list.splits sum.splits if_splits prod.splits)

lemma process_groups_error:
  "process_groups cfg es sm p gs s = Inl e \<Longrightarrow> \<not> is_validation_error e"
  by (induction gs arbitrary: s) (auto dest: process_group_error split: sum.splits)

lemma save_old_ping_time_error:
  "save_old_ping_time s = Inl e \<Longrightarrow> \<not> is_validation_error e"
  by (auto simp: save_old_ping_time_def split: option.splits)

lemma save_attrs_error:
  "save_attrs oa gs r = Inl e \<Longrightarrow> \<not> is_validation_error e"
  by (induction gs arbitrary: r) (auto split: option.splits)

lemma combine_validation_error_iff:
  "(\<exists>e. combine_echodata cfg es p = Inl e \<and> is_validation_error e) \<longleftrightarrow>
   (\<exists>e. check_models None es = Inl e)"
proof (cases "check_models None es")
  case (Inl e)
  then have "es \<noteq> []" by auto
  then show ?thesis using Inl check_models_error [OF Inl]
    by (auto simp: combine_echodata_def)
next
  case (Inr sm)
  then show ?thesis
    by (auto simp: combine_echodata_def
        dest: process_groups_error save_old_ping_time_error save_attrs_error
        split: sum.splits)
qed

text \<open>
  C7. Combining the empty list returns the fresh record, in which every group is absent,
  with no warning and no error, whatever the configuration and the attrs policy.
\<close>

theorem combine_empty:
  "combine_echodata cfg [] combine_attrs = Inr (EchoData, []) \<and> groups EchoData grp = None"
  by (simp add: combine_echodata_def EchoData_def)

text \<open>
  C1, as the code has it. \<open>combine_echodata\<close> raises one of the two validation errors if and
  only if some record has no model tag or two records have different tags. The error is
  one of two fixed messages and names no position. It is the error of the loop over the
  tags, which runs before the loop over the groups: whatever the groups, the
  configuration and the attrs policy are, that error is the outcome of the call.
\<close>

theorem combine_validation:
  "((\<exists>e. combine_echodata cfg es p = Inl e \<and> is_validation_error e) \<longleftrightarrow>
      (\<exists>r\<in>set es. sonar_model r = None) \<or>
      (\<exists>r\<in>set es. \<exists>r'\<in>set es. sonar_model r \<noteq> sonar_model r')) \<and>
   (\<forall>e. check_models None es = Inl e \<longrightarrow> combine_echodata cfg es p = Inl e)"
proof -
  have "\<forall>e. check_models None es = Inl e \<longrightarrow> combine_echodata cfg es p = Inl e"
  proof (intro allI impI)
    fix e assume e: "check_models None es = Inl e"
    then have "es \<noteq> []" by auto
    then show "combine_echodata cfg es p = Inl e"
      using e by (simp add: combine_echodata_def)
  qed
  then show ?thesis
    using combine_validation_error_iff [of cfg es p] check_models_Inl_iff [of es] by simp
qed

theorem combine_validation_witness:
  "(\<exists>r\<in>set [ed_a, ed_null]. sonar_model r = None) \<and>
   combine_echodata cfg0 [ed_a, ed_null] ''override'' = Inl (ValueError msg_none) \<and>
   is_validation_error (ValueError msg_none)"
proof -
  have c: "check_models None [ed_a, ed_null] = Inl (ValueError msg_none)"
    by (simp add: ed_a_def ed_null_def)
  have "combine_echodata cfg0 [ed_a, ed_null] ''override'' = Inl (ValueError msg_none)"
    using combine_validation [of cfg0 "[ed_a, ed_null]" "''override''"] c by blast
  then show ?thesis
    by (simp add: ed_null_def is_validation_error_def)
qed

text \<open>
  C1 as the claim words it asks the error to name the offending record's position. With
  the record without a tag first or second, the call raises the very same error.
\<close>

theorem validation_error_position_counterexample:
  "sonar_model ed_null = None \<and> sonar_model ed_a = Some ''EK60'' \<and>
   combine_echodata cfg0 [ed_null, ed_a] ''override'' = Inl (ValueError msg_none) \<and>
   combine_echodata cfg0 [ed_a, ed_null] ''override'' = Inl (ValueError msg_none)"
  by (simp add: combine_echodata_def ed_a_def ed_null_def)

section \<open>The loop over the groups, step by step\<close>

subsection \<open>The loop body, case by case\<close>

lemma process_group_first:
  "grp = ''top'' \<or> grp = ''sonar'' \<Longrightarrow>
   process_group cfg (e # es) sm p grp s = Inr (store grp (groups e grp) s)"
  by (auto simp: process_group_def)

lemma process_group_prov:
  "process_group cfg es sm p ''provenance'' s =
     Inr (store ''provenance''
            (Some (assemble_combined_provenance (ECHOPYPE_VERSION cfg) (utcnow cfg)
                     (map input_path es))) s)"
  by (simp add: process_group_def)

lemma process_group_absent:
  "\<not> special grp \<Longrightarrow> group_datasets es grp = [] \<Longrightarrow>
   process_group cfg es sm p grp s =
     Inr (s\<lparr>result := (result s)\<lparr>groups := (groups (result s))(grp := None)\<rparr>\<rparr>)"
  by (simp add: process_group_def special_def)

lemma process_group_concat:
  "\<not> special grp \<Longrightarrow> group_datasets es grp \<noteq> [] \<Longrightarrow>
   process_group cfg es sm p grp s =
     (case built_group cfg sm p es grp of
        Inl e \<Rightarrow> Inl e
      | Inr nz \<Rightarrow>
          (case repair_time nz (snapshot_attrs grp (group_datasets es grp) s) of
             (rp, s2) \<Rightarrow> Inr (store grp (Some rp) s2)))"
  by (simp add: process_group_def special_def built_group_def Let_def split: sum.splits)

subsection \<open>What the repair step changes\<close>

lemma repair_time_result:
  "repair_time ds s = (ds', s') \<Longrightarrow> result s' = result s \<and> old_attrs s' = old_attrs s"
  by (auto simp: repair_time_def Let_def split: if_splits)

lemma coerce_frame:
  "ds_dims (coerce_increasing_time ds) = ds_dims ds"
  "ds_strs (coerce_increasing_time ds) = ds_strs ds"
  "ds_attr_vars (coerce_increasing_time ds) = ds_attr_vars ds"
  "ds_attrs (coerce_increasing_time ds) = ds_attrs ds"
  "n \<noteq> ''ping_time'' \<Longrightarrow> ds_times (coerce_increasing_time ds) n = ds_times ds n"
  by (simp_all add: coerce_increasing_time_def split: option.splits)

lemma repair_time_frame:
  assumes "repair_time ds s = (ds', s')"
  shows "ds_dims ds' = ds_dims ds" "ds_strs ds' = ds_strs ds"
        "ds_attr_vars ds' = ds_attr_vars ds" "ds_attrs ds' = ds_attrs ds"
        "n \<noteq> ''ping_time'' \<Longrightarrow> ds_times ds' n = ds_times ds n"
  using assms by (auto simp: repair_time_def Let_def coerce_frame split: if_splits)

lemma repair_time_no_reversal:
  "\<not> has_reversal ds \<Longrightarrow> repair_time ds s = (ds, s)"
  by (simp add: repair_time_def)

lemma repair_time_cached:
  "has_reversal ds \<Longrightarrow> old_ping_time s \<noteq> None \<Longrightarrow>
   repair_time ds s = (ds\<lparr>ds_times := (ds_times ds)(''ping_time'' := new_ping_time s)\<rparr>, s)"
  by (auto simp: repair_time_def)

lemma repair_time_first:
  "has_reversal ds \<Longrightarrow> old_ping_time s = None \<Longrightarrow>
   repair_time ds s =
     (coerce_increasing_time ds,
      s\<lparr>warnings := warnings s @ [msg_reversal],
        old_ping_time := ds_times ds ''ping_time'',
        new_ping_time := ds_times (coerce_increasing_time ds) ''ping_time''\<rparr>)"
  by (simp add: repair_time_def Let_def)

lemma has_reversal_ping_time:
  "has_reversal ds \<Longrightarrow> \<exists>pt. ds_times ds ''ping_time'' = Some pt \<and> exist_reversed_time (var_values pt)"
  by (auto simp: has_reversal_def split: option.splits)

lemma coerce_ping_time:
  "ds_times ds ''ping_time'' = Some pt \<Longrightarrow>
   ds_times (coerce_increasing_time ds) ''ping_time'' = Some (pt\<lparr>var_values := correct (var_values pt)\<rparr>)"
  by (simp add: coerce_increasing_time_def)

subsection \<open>The cache along the loop\<close>

lemma store_fields [simp]:
  "old_ping_time (store g d s) = old_ping_time s"
  "new_ping_time (store g d s) = new_ping_time s"
  "warnings (store g d s) = warnings s"
  "old_attrs (store g d s) = old_attrs s"
  "groups (result (store g d s)) = (groups (result s))(g := map_option (drop_dims ''concat_dim'') d)"
  by (simp_all add: store_def)

lemma snapshot_fields [simp]:
  "old_ping_time (snapshot_attrs g gds s) = old_ping_time s"
  "new_ping_time (snapshot_attrs g gds s) = new_ping_time s"
  "warnings (snapshot_attrs g gds s) = warnings s"
  "result (snapshot_attrs g gds s) = result s"
  by (simp_all add: snapshot_attrs_def)

lemma detected_built:
  "detected cfg sm p es g \<Longrightarrow>
   \<not> special g \<and> group_datasets es g \<noteq> [] \<and>
   (\<exists>nz. built_group cfg sm p es g = Inr nz \<and> has_reversal nz)"
  by (auto simp: detected_def split: if_splits sum.splits)

lemma not_detected_built:
  "\<not> detected cfg sm p es g \<Longrightarrow> \<not> special g \<Longrightarrow> group_datasets es g \<noteq> [] \<Longrightarrow>
   built_group cfg sm p es g = Inr nz \<Longrightarrow> \<not> has_reversal nz"
  by (auto simp: detected_def split: if_splits sum.splits)

lemma process_group_undetected:
  assumes "process_group cfg es sm p g s = Inr s'" and "\<not> detected cfg sm p es g"
  shows "old_ping_time s' = old_ping_time s \<and> new_ping_time s' = new_ping_time s \<and>
         warnings s' = warnings s"
proof (cases "special g")
  case True
  then show ?thesis using assms(1)
    by (auto simp: special_def process_group_def split: list.splits)
next
  case False
  show ?thesis
  proof (cases "group_datasets es g = []")
    case True
    then show ?thesis using assms(1) False by (auto simp: process_group_absent)
  next
    case ne: False
    from assms(1) obtain nz where nz: "built_group cfg sm p es g = Inr nz"
      by (auto simp: process_group_concat [OF False ne] split: sum.splits)
    have "\<not> has_reversal nz" using not_detected_built [OF assms(2) False ne nz] .
    then show ?thesis using assms(1) nz
      by (auto simp: process_group_concat [OF False ne] repair_time_no_reversal)
  qed
qed

lemma process_group_cached:
  assumes "process_group cfg es sm p g s = Inr s'" and "old_ping_time s \<noteq> None"
  shows "old_ping_time s' = old_ping_time s \<and> new_ping_time s' = new_ping_time s \<and>
         warnings s' = warnings s"
proof (cases "detected cfg sm p es g")
  case False
  then show ?thesis using process_group_undetected [OF assms(1)] by simp
next
  case True
  from detected_built [OF True] obtain nz where
    sp: "\<not> special g" and ne: "group_datasets es g \<noteq> []" and
    nz: "built_group cfg sm p es g = Inr nz" and rev: "has_reversal nz" by blast
  have "repair_time nz (snapshot_attrs g (group_datasets es g) s) =
          (nz\<lparr>ds_times := (ds_times nz)(''ping_time'' := new_ping_time s)\<rparr>,
           snapshot_attrs g (group_datasets es g) s)"
    using repair_time_cached [OF rev, of "snapshot_attrs g (group_datasets es g) s"] assms(2)
    by simp
  then show ?thesis using assms(1) nz
    by (auto simp: process_group_concat [OF sp ne])
qed

lemma process_group_first_detection:
  assumes "process_group cfg es sm p g s = Inr s'" and "old_ping_time s = None"
      and "detected cfg sm p es g"
  shows "\<exists>nz pt. built_group cfg sm p es g = Inr nz \<and> ds_times nz ''ping_time'' = Some pt \<and>
           old_ping_time s' = Some pt \<and>
           new_ping_time s' = Some (pt\<lparr>var_values := correct (var_values pt)\<rparr>) \<and>
           warnings s' = warnings s @ [msg_reversal]"
proof -
  from detected_built [OF assms(3)] obtain nz where
    sp: "\<not> special g" and ne: "group_datasets es g \<noteq> []" and
    nz: "built_group cfg sm p es g = Inr nz" and rev: "has_reversal nz" by blast
  from has_reversal_ping_time [OF rev] obtain pt where
    pt: "ds_times nz ''ping_time'' = Some pt" by blast
  let ?s1 = "snapshot_attrs g (group_datasets es g) s"
  have "old_ping_time ?s1 = None" using assms(2) by simp
  from repair_time_first [OF rev this] assms(1) nz pt
  have "old_ping_time s' = Some pt \<and>
        new_ping_time s' = Some (pt\<lparr>var_values := correct (var_values pt)\<rparr>) \<and>
        warnings s' = warnings s @ [msg_reversal]"
    by (auto simp: process_group_concat [OF sp ne] coerce_ping_time)
  then show ?thesis using nz pt by blast
qed

lemma process_groups_cached:
  assumes "process_groups cfg es sm p gs s = Inr s'" and "old_ping_time s \<noteq> None"
  shows "old_ping_time s' = old_ping_time s \<and> new_ping_time s' = new_ping_time s \<and>
         warnings s' = warnings s"
  using assms
proof (induction gs arbitrary: s)
  case Nil
  then show ?case by simp
next
  case (Cons g gs)
  from Cons.prems(1) obtain s1 where
    s1: "process_group cfg es sm p g s = Inr s1" and
    rest: "process_groups cfg es sm p gs s1 = Inr s'"
    by (auto split: sum.splits)
  from process_group_cached [OF s1 Cons.prems(2)] Cons.IH [OF rest] Cons.prems(2)
  show ?case by simp
qed

lemma process_groups_undetected:
  assumes "process_groups cfg es sm p gs s = Inr s'"
      and "\<forall>g\<in>set gs. \<not> detected cfg sm p es g"
  shows "old_ping_time s' = old_ping_time s \<and> new_ping_time s' = new_ping_time s \<and>
         warnings s' = warnings s"
  using assms
proof (induction gs arbitrary: s)
  case Nil
  then show ?case by simp
next
  case (Cons g gs)
  from Cons.prems(1) obtain s1 where
    s1: "process_group cfg es sm p g s = Inr s1" and
    rest: "process_groups cfg es sm p gs s1 = Inr s'"
    by (auto split: sum.splits)
  from process_group_undetected [OF s1] Cons.IH [OF rest] Cons.prems(2)
  show ?case by simp
qed

lemma process_groups_append:
  "process_groups cfg es sm p (xs @ ys) s =
     (case process_groups cfg es sm p xs s of
        Inl e \<Rightarrow> Inl e
      | Inr s1 \<Rightarrow> process_groups cfg es sm p ys s1)"
  by (induction xs arbitrary: s) (auto split: sum.splits)

subsection \<open>Detection and repair of a sequence\<close>




lemma correct_from_length: "length (correct_from off prev xs) = length xs"
  by (induction xs arbitrary: off prev) (simp_all add: Let_def)

lemma correct_length: "length (correct xs) = length xs"
  by (cases xs) (simp_all add: correct_from_length)


lemma correct_from_increasing:
  "sorted_wrt (<) (prev # xs) \<Longrightarrow> correct_from 0 prev xs = xs"
proof (induction xs arbitrary: prev)
  case Nil
  show ?case by simp
next
  case (Cons x xs)
  have lt: "prev < x" and rest: "sorted_wrt (<) (x # xs)" using Cons.prems by auto
  have "correct_from 0 prev (x # xs) = x # correct_from 0 x xs"
    using lt by (simp add: Let_def)
  then show ?case using Cons.IH [OF rest] by simp
qed

lemma correct_increasing: "sorted_wrt (<) xs \<Longrightarrow> correct xs = xs"
  by (cases xs) (simp_all add: correct_from_increasing)

lemma correct_example:
  "exist_reversed_time [10, 20, 15, 30]" "correct [10, 20, 15, 30] = [10, 20, 21, 36]"
  by (simp_all add: Let_def)

subsection \<open>The last two statements of the call\<close>

lemma combine_InrD:
  assumes "combine_echodata cfg es p = Inr (r, w)" and "es \<noteq> []"
  shows "\<exists>sm s r1. check_models None es = Inr sm \<and>
           process_groups cfg es sm p (group_map cfg) initial_state = Inr s \<and>
           save_old_ping_time s = Inr r1 \<and>
           save_attrs (old_attrs s) (map fst (old_attrs s)) r1 = Inr r \<and> w = warnings s"
  using assms by (auto simp: combine_echodata_def split: sum.splits)

lemma save_old_ping_time_other:
  "save_old_ping_time s = Inr r1 \<Longrightarrow> g \<noteq> ''provenance'' \<Longrightarrow> groups r1 g = groups (result s) g"
  by (auto simp: save_old_ping_time_def split: option.splits)

lemma save_attrs_other:
  "save_attrs oa gs r1 = Inr r \<Longrightarrow> g \<noteq> ''provenance'' \<Longrightarrow> groups r g = groups r1 g"
  by (induction gs arbitrary: r1) (auto split: option.splits)

lemma assign_attrs_frame:
  "ds_dims (assign_attrs oa prov) = ds_dims prov \<and>
   ds_strs (assign_attrs oa prov) = ds_strs prov \<and>
   ds_times (assign_attrs oa prov) = ds_times prov \<and>
   ds_attrs (assign_attrs oa prov) = ds_attrs prov"
  unfolding assign_attrs_def
  by (induction oa arbitrary: prov) (auto split: prod.splits)

lemma save_old_ping_time_prov:
  assumes "save_old_ping_time s = Inr r1" and "groups (result s) ''provenance'' = Some prov"
  shows "\<exists>prov'. groups r1 ''provenance'' = Some prov' \<and> ds_dims prov' = ds_dims prov \<and>
           ds_strs prov' = ds_strs prov \<and> ds_attrs prov' = ds_attrs prov \<and>
           ds_times prov' ''ping_time'' = ds_times prov ''ping_time''"
  using assms by (auto simp: save_old_ping_time_def split: option.splits)

lemma save_attrs_prov:
  assumes "save_attrs oa gs r1 = Inr r" and "groups r1 ''provenance'' = Some prov"
  shows "\<exists>prov'. groups r ''provenance'' = Some prov' \<and> ds_dims prov' = ds_dims prov \<and>
           ds_strs prov' = ds_strs prov \<and> ds_attrs prov' = ds_attrs prov \<and>
           ds_times prov' = ds_times prov"
  using assms
proof (induction gs arbitrary: r1 prov)
  case Nil
  then show ?case by simp
next
  case (Cons g gs)
  let ?r2 = "r1\<lparr>groups := (groups r1)(''provenance'' \<mapsto> assign_attrs oa prov)\<rparr>"
  have step: "save_attrs oa gs ?r2 = Inr r" using Cons.prems by simp
  have "groups ?r2 ''provenance'' = Some (assign_attrs oa prov)" by simp
  from Cons.IH [OF step this] show ?case by (simp add: assign_attrs_frame)
qed

subsection \<open>When the call returns\<close>

lemma merge_attrs_total:
  "p = ''override'' \<or> p = ''drop'' \<Longrightarrow> \<exists>a. merge_attrs as p = Inr a"
  by (cases as) auto

lemma combine_nested_total:
  "p = ''override'' \<or> p = ''drop'' \<Longrightarrow> \<exists>cg. combine_nested gds d v p = Inr cg"
proof (cases gds)
  case Nil
  then show ?thesis by simp
next
  case (Cons a as)
  assume "p = ''override'' \<or> p = ''drop''"
  from merge_attrs_total [OF this, of "map ds_attrs (a # as)"] obtain x
    where "merge_attrs (map ds_attrs (a # as)) p = Inr x" by blast
  then show ?thesis using Cons by (simp del: merge_attrs.simps)
qed

lemma concat_group_total:
  assumes "SONAR_MODELS cfg m = Some spec"
      and "concat_dims spec ''default'' \<noteq> None" and "concat_data_vars spec ''default'' \<noteq> None"
      and "p = ''override'' \<or> p = ''drop'' \<or> p = ''overwrite_conflicts''"
  shows "\<exists>cg. concat_group cfg (Some m) p g gds = Inr cg"
proof -
  from assms(2,3) obtain d v where
    d: "get_or_default (concat_dims spec) g = Inr d" and
    v: "get_or_default (concat_data_vars spec) g = Inr v"
    by (auto simp: get_or_default_def)
  let ?q = "if p = ''overwrite_conflicts'' then ''drop'' else p"
  have "?q = ''override'' \<or> ?q = ''drop''" using assms(4) by auto
  from combine_nested_total [OF this, of gds d v] obtain cg where
    "combine_nested gds d v ?q = Inr cg" by blast
  then show ?thesis using assms(1) d v by (simp add: concat_group_def)
qed

lemma built_group_total:
  assumes "SONAR_MODELS cfg m = Some spec"
      and "concat_dims spec ''default'' \<noteq> None" and "concat_data_vars spec ''default'' \<noteq> None"
      and "p = ''override'' \<or> p = ''drop'' \<or> p = ''overwrite_conflicts''"
      and "g \<noteq> ''beam''"
  shows "\<exists>nz. built_group cfg (Some m) p es g = Inr nz"
proof -
  from concat_group_total [OF assms(1-4), of g "group_datasets es g"] obtain cg where
    "concat_group cfg (Some m) p g (group_datasets es g) = Inr cg" by blast
  then show ?thesis using assms(5) by (simp add: built_group_def normalize_beam_def)
qed

lemma process_group_total:
  assumes "es \<noteq> []" and "SONAR_MODELS cfg m = Some spec"
      and "concat_dims spec ''default'' \<noteq> None" and "concat_data_vars spec ''default'' \<noteq> None"
      and "p = ''override'' \<or> p = ''drop'' \<or> p = ''overwrite_conflicts''"
      and "g \<noteq> ''beam''"
  shows "\<exists>s'. process_group cfg es (Some m) p g s = Inr s'"
proof (cases "special g")
  case True
  then show ?thesis using assms(1)
    by (cases es) (auto simp: special_def process_group_first process_group_prov)
next
  case False
  show ?thesis
  proof (cases "group_datasets es g = []")
    case True
    then show ?thesis using False by (simp add: process_group_absent)
  next
    case ne: False
    from built_group_total [OF assms(2-6), of es] obtain nz where
      "built_group cfg (Some m) p es g = Inr nz" by blast
    then show ?thesis
      by (simp add: process_group_concat [OF False ne] split: prod.splits)
  qed
qed

lemma process_groups_total:
  assumes "es \<noteq> []" and "SONAR_MODELS cfg m = Some spec"
      and "concat_dims spec ''default'' \<noteq> None" and "concat_data_vars spec ''default'' \<noteq> None"
      and "p = ''override'' \<or> p = ''drop'' \<or> p = ''overwrite_conflicts''"
      and "''beam'' \<notin> set gs"
  shows "\<exists>s'. process_groups cfg es (Some m) p gs s = Inr s'"
  using assms(6)
proof (induction gs arbitrary: s)
  case Nil
  show ?case by simp
next
  case (Cons g gs)
  then have "g \<noteq> ''beam''" by auto
  from process_group_total [OF assms(1-5) this] obtain s1 where
    "process_group cfg es (Some m) p g s = Inr s1" by blast
  moreover from Cons obtain s2 where "process_groups cfg es (Some m) p gs s1 = Inr s2"
    by fastforce
  ultimately show ?case by simp
qed

lemma save_attrs_total:
  "groups r ''provenance'' \<noteq> None \<Longrightarrow> \<exists>r'. save_attrs oa gs r = Inr r'"
  by (induction gs arbitrary: r) auto

lemma save_old_ping_time_total:
  "groups (result s) ''provenance'' \<noteq> None \<Longrightarrow>
   \<exists>r. save_old_ping_time s = Inr r \<and> groups r ''provenance'' \<noteq> None"
  by (auto simp: save_old_ping_time_def split: option.splits)

subsection \<open>Which stored groups a step touches\<close>

lemma process_group_other:
  assumes "process_group cfg es sm p grp s = Inr s'" and "g \<noteq> grp"
  shows "groups (result s') g = groups (result s) g"
proof (cases "special grp")
  case True
  then show ?thesis using assms
    by (auto simp: special_def process_group_def split: list.splits)
next
  case False
  show ?thesis
  proof (cases "group_datasets es grp = []")
    case True
    then show ?thesis using assms False by (auto simp: process_group_absent)
  next
    case ne: False
    show ?thesis using assms
      by (auto simp: process_group_concat [OF False ne]
               dest: repair_time_result split: sum.splits prod.splits)
  qed
qed

lemma process_groups_other:
  assumes "process_groups cfg es sm p gs s = Inr s'" and "g \<notin> set gs"
  shows "groups (result s') g = groups (result s) g"
  using assms
proof (induction gs arbitrary: s)
  case Nil
  then show ?case by simp
next
  case (Cons h gs)
  from Cons.prems(1) obtain s1 where
    s1: "process_group cfg es sm p h s = Inr s1" and
    rest: "process_groups cfg es sm p gs s1 = Inr s'"
    by (auto split: sum.splits)
  have "g \<noteq> h" "g \<notin> set gs" using Cons.prems(2) by auto
  then show ?case using Cons.IH [OF rest] process_group_other [OF s1] by simp
qed

lemma drop_dims_provenance:
  "drop_dims ''concat_dim'' (assemble_combined_provenance v t ps) =
     assemble_combined_provenance v t ps"
  by (auto simp: drop_dims_def assemble_combined_provenance_def drop_vars_over_def fun_eq_iff)

lemma process_groups_provenance:
  assumes "process_groups cfg es sm p gs s = Inr s'" and "''provenance'' \<in> set gs"
  shows "groups (result s') ''provenance'' =
           Some (assemble_combined_provenance (ECHOPYPE_VERSION cfg) (utcnow cfg)
                   (map input_path es))"
  using assms
proof (induction gs arbitrary: s)
  case Nil
  then show ?case by simp
next
  case (Cons g gs)
  from Cons.prems(1) obtain s1 where
    s1: "process_group cfg es sm p g s = Inr s1" and
    rest: "process_groups cfg es sm p gs s1 = Inr s'"
    by (auto split: sum.splits)
  show ?case
  proof (cases "''provenance'' \<in> set gs")
    case True
    then show ?thesis using Cons.IH [OF rest] by simp
  next
    case False
    then have g: "g = ''provenance''" using Cons.prems(2) by simp
    have "groups (result s') ''provenance'' = groups (result s1) ''provenance''"
      using process_groups_other [OF rest False] .
    then show ?thesis using s1 g
      by (auto simp: process_group_prov drop_dims_provenance)
  qed
qed


lemma check_models_nonempty:
  "check_models None es = Inr (Some m) \<Longrightarrow> es \<noteq> []"
  by auto

lemma combine_total:
  assumes "check_models None es = Inr (Some m)" and "SONAR_MODELS cfg m = Some spec"
      and "concat_dims spec ''default'' \<noteq> None" and "concat_data_vars spec ''default'' \<noteq> None"
      and "p = ''override'' \<or> p = ''drop'' \<or> p = ''overwrite_conflicts''"
      and "''beam'' \<notin> set (group_map cfg)" and "''provenance'' \<in> set (group_map cfg)"
  shows "\<exists>r w. combine_echodata cfg es p = Inr (r, w)"
proof -
  have ne: "es \<noteq> []" using assms(1) by (rule check_models_nonempty)
  from process_groups_total [OF ne assms(2-6)] obtain s where
    s: "process_groups cfg es (Some m) p (group_map cfg) initial_state = Inr s" by blast
  have "groups (result s) ''provenance'' \<noteq> None"
    using process_groups_provenance [OF s assms(7)] by simp
  from save_old_ping_time_total [OF this] obtain r1 where
    r1: "save_old_ping_time s = Inr r1" and pr: "groups r1 ''provenance'' \<noteq> None" by blast
  from save_attrs_total [OF pr] obtain r where
    "save_attrs (old_attrs s) (map fst (old_attrs s)) r1 = Inr r" by blast
  then show ?thesis using ne assms(1) s r1 by (simp add: combine_echodata_def)
qed

subsection \<open>The sample inputs, evaluated\<close>

lemma cfg0_facts:
  "SONAR_MODELS cfg0 ''EK60'' = Some ek60_spec"
  "concat_dims ek60_spec ''default'' \<noteq> None"
  "concat_data_vars ek60_spec ''default'' \<noteq> None"
  "''beam'' \<notin> set (group_map cfg0)"
  "''provenance'' \<in> set (group_map cfg0)"
  "''top'' \<in> set (group_map cfg0)"
  "''environment'' \<in> set (group_map cfg0)"
  "''vendor'' \<in> set (group_map cfg0)"
  by (simp_all add: cfg0_def ek60_spec_def)

lemma check_models_samples:
  "check_models None [ed1, ed2] = Inr (Some ''EK60'')"
  "check_models None [ed_top] = Inr (Some ''EK60'')"
  by (simp_all add: ed1_def ed2_def ed_top_def)

lemma group_datasets_samples:
  "group_datasets [ed1, ed2] ''environment'' = [env1, env2]"
  "group_datasets [ed1, ed2] ''vendor'' = [ven1]"
  by (simp_all add: group_datasets_def List.map_filter_def ed1_def ed2_def)

lemma combine_samples_return:
  "\<exists>r w. combine_echodata cfg0 [ed1, ed2] ''override'' = Inr (r, w)"
  "\<exists>r w. combine_echodata cfg0 [ed1, ed2] ''overwrite_conflicts'' = Inr (r, w)"
  "\<exists>r w. combine_echodata cfg0 [ed_top] ''override'' = Inr (r, w)"
  by (rule combine_total [OF check_models_samples(1) cfg0_facts(1-3) _ cfg0_facts(4,5)], simp)
     (rule combine_total [OF check_models_samples(1) cfg0_facts(1-3) _ cfg0_facts(4,5)], simp,
      rule combine_total [OF check_models_samples(2) cfg0_facts(1-3) _ cfg0_facts(4,5)], simp)

section \<open>The provenance group of the result\<close>

lemma combine_provenance_group:
  assumes "combine_echodata cfg es p = Inr (r, w)" and "es \<noteq> []"
      and "''provenance'' \<in> set (group_map cfg)"
  shows "\<exists>prov. groups r ''provenance'' = Some prov \<and>
           ds_dims prov = [''file'' \<mapsto> length es] \<and>
           ds_strs prov = [''src_filenames'' \<mapsto>
              \<lparr>var_dim = ''file'', var_values = map input_path es\<rparr>] \<and>
           ds_times prov ''ping_time'' = None"
proof -
  from combine_InrD [OF assms(1,2)] obtain sm s r1 where
    s: "process_groups cfg es sm p (group_map cfg) initial_state = Inr s" and
    r1: "save_old_ping_time s = Inr r1" and
    r: "save_attrs (old_attrs s) (map fst (old_attrs s)) r1 = Inr r" by blast
  let ?a = "assemble_combined_provenance (ECHOPYPE_VERSION cfg) (utcnow cfg) (map input_path es)"
  have a: "groups (result s) ''provenance'' = Some ?a"
    using process_groups_provenance [OF s assms(3)] .
  from save_old_ping_time_prov [OF r1 a] obtain p1 where
    p1: "groups r1 ''provenance'' = Some p1" "ds_dims p1 = ds_dims ?a"
        "ds_strs p1 = ds_strs ?a" "ds_times p1 ''ping_time'' = ds_times ?a ''ping_time''"
    by blast
  from save_attrs_prov [OF r p1(1)] obtain p2 where
    p2: "groups r ''provenance'' = Some p2" "ds_dims p2 = ds_dims p1"
        "ds_strs p2 = ds_strs p1" "ds_times p2 = ds_times p1"
    by blast
  show ?thesis using p1 p2 by (simp add: assemble_combined_provenance_def)
qed

text \<open>
  C9, as the code has it. For every non-empty list of records on which the call returns,
  with \<open>provenance\<close> among the group names, the provenance group of the result has the
  dimension \<open>file\<close> of length the number of records, and its variable \<open>src_filenames\<close>
  runs over \<open>file\<close> and holds, in input order, each record's origin identifier: the source
  file path, or the converted path when the source file path is \<open>None\<close>.
\<close>

theorem combined_provenance:
  assumes "combine_echodata cfg es p = Inr (r, w)" and "es \<noteq> []"
      and "''provenance'' \<in> set (group_map cfg)"
  shows "\<exists>prov. groups r ''provenance'' = Some prov \<and>
           ds_dims prov ''file'' = Some (length es) \<and>
           ds_strs prov ''src_filenames'' =
             Some \<lparr>var_dim = ''file'',
                   var_values = map (\<lambda>e. if source_file e \<noteq> None then source_file e
                                          else converted_raw_path e) es\<rparr>"
proof -
  from combine_provenance_group [OF assms] obtain prov where
    "groups r ''provenance'' = Some prov" "ds_dims prov = [''file'' \<mapsto> length es]"
    "ds_strs prov = [''src_filenames'' \<mapsto> \<lparr>var_dim = ''file'', var_values = map input_path es\<rparr>]"
    by blast
  moreover have "map input_path es =
      map (\<lambda>e. if source_file e \<noteq> None then source_file e else converted_raw_path e) es"
    by (simp add: input_path_def)
  ultimately show ?thesis by simp
qed

theorem combined_provenance_witness:
  "map_option (\<lambda>prov. (ds_dims prov ''file'', map_option var_values (ds_strs prov ''src_filenames'')))
     (returned_group (combine_echodata cfg0 [ed1, ed2] ''override'') ''provenance'') =
   Some (Some 2, Some [Some ''a.raw'', Some ''b.zarr''])"
proof -
  from combine_samples_return(1) obtain r w where
    rw: "combine_echodata cfg0 [ed1, ed2] ''override'' = Inr (r, w)" by blast
  have ne: "[ed1, ed2] \<noteq> []" by simp
  from combined_provenance [OF rw ne cfg0_facts(5)] obtain prov where
    "groups r ''provenance'' = Some prov" "ds_dims prov ''file'' = Some (length [ed1, ed2])"
    "ds_strs prov ''src_filenames'' =
       Some \<lparr>var_dim = ''file'',
             var_values = map (\<lambda>e. if source_file e \<noteq> None then source_file e
                                    else converted_raw_path e) [ed1, ed2]\<rparr>"
    by blast
  then show ?thesis using rw
    by (simp add: returned_group_def ed1_def ed2_def)
qed

text \<open>
  C9 as the claim words it covers every list. On the empty list the call returns before
  the provenance group is built: the result has none, so no \<open>file\<close> dimension of length 0.
\<close>

theorem provenance_empty_counterexample:
  "returned_group (combine_echodata cfg0 [] ''override'') ''provenance'' = None \<and>
   combine_echodata cfg0 [] ''override'' = Inr (EchoData, [])"
  by (simp add: returned_group_def combine_echodata_def EchoData_def)

section \<open>The time axis of the result\<close>

subsection \<open>No stored group keeps a reversal\<close>













subsection \<open>The concatenated group, field by field\<close>

lemma astype_var_frame:
  assumes "astype_var n k ds = Inr ds'"
  shows "ds_dims ds' = ds_dims ds \<and> ds_times ds' = ds_times ds \<and>
         ds_attr_vars ds' = ds_attr_vars ds \<and> ds_attrs ds' = ds_attrs ds"
  using assms by (auto simp: astype_var_def split: option.splits)

lemma normalize_beam_frame:
  assumes "normalize_beam sm g ds = Inr ds'"
  shows "ds_dims ds' = ds_dims ds \<and> ds_times ds' = ds_times ds \<and>
         ds_attr_vars ds' = ds_attr_vars ds \<and> ds_attrs ds' = ds_attrs ds"
  using assms unfolding normalize_beam_def
  by (auto dest!: astype_var_frame split: if_splits sum.splits)


lemma combine_nested_fields:
  assumes "combine_nested (d0 # rest) cd dv q = Inr cg"
  shows "ds_dims cg = (ds_dims d0)(cd \<mapsto> sum_list (map (dim_size cd) (d0 # rest))) \<and>
         ds_times cg = concat_vars cd ds_times d0 (d0 # rest) \<and>
         ds_strs cg = concat_vars cd ds_strs d0 (d0 # rest) \<and>
         ds_attr_vars cg = ds_attr_vars d0 \<and>
         merge_attrs (map ds_attrs (d0 # rest)) q = Inr (ds_attrs cg)"
  using assms by (auto simp del: merge_attrs.simps split: sum.splits)

lemma concat_group_fields:
  assumes "concat_group cfg sm p g (d0 # rest) = Inr cg"
  shows "\<exists>m spec cd dv a. sm = Some m \<and> SONAR_MODELS cfg m = Some spec \<and>
           get_or_default (concat_dims spec) g = Inr cd \<and>
           get_or_default (concat_data_vars spec) g = Inr dv \<and>
           ds_dims cg = (ds_dims d0)(cd \<mapsto> sum_list (map (dim_size cd) (d0 # rest))) \<and>
           ds_times cg = concat_vars cd ds_times d0 (d0 # rest) \<and>
           ds_strs cg = concat_vars cd ds_strs d0 (d0 # rest) \<and>
           ds_attr_vars cg = ds_attr_vars d0 \<and>
           merge_attrs (map ds_attrs (d0 # rest))
             (if p = ''overwrite_conflicts'' then ''drop'' else p) = Inr a \<and>
           ds_attrs cg = (if p = ''overwrite_conflicts''
                          then dict_update a (union_attrs (d0 # rest)) else a)"
proof -
  from assms obtain m spec cd dv cg0 where
    f: "sm = Some m" "SONAR_MODELS cfg m = Some spec"
       "get_or_default (concat_dims spec) g = Inr cd"
       "get_or_default (concat_data_vars spec) g = Inr dv" and
    cg0: "combine_nested (d0 # rest) cd dv
            (if p = ''overwrite_conflicts'' then ''drop'' else p) = Inr cg0" and
    cg: "cg = (if p = ''overwrite_conflicts''
               then cg0\<lparr>ds_attrs := dict_update (ds_attrs cg0) (union_attrs (d0 # rest))\<rparr>
               else cg0)"
    unfolding concat_group_def
    by (auto simp del: combine_nested.simps split: option.splits sum.splits if_splits)
  from combine_nested_fields [OF cg0] f cg show ?thesis
    by (cases "p = ''overwrite_conflicts''") (simp_all del: merge_attrs.simps)
qed

lemma built_group_fields:
  assumes "built_group cfg sm p es g = Inr nz" and "group_datasets es g = d0 # rest"
  shows "\<exists>m spec cd dv a. sm = Some m \<and> SONAR_MODELS cfg m = Some spec \<and>
           get_or_default (concat_dims spec) g = Inr cd \<and>
           get_or_default (concat_data_vars spec) g = Inr dv \<and>
           ds_dims nz = (ds_dims d0)(cd \<mapsto> sum_list (map (dim_size cd) (d0 # rest))) \<and>
           ds_times nz = concat_vars cd ds_times d0 (d0 # rest) \<and>
           ds_attr_vars nz = ds_attr_vars d0 \<and>
           merge_attrs (map ds_attrs (d0 # rest))
             (if p = ''overwrite_conflicts'' then ''drop'' else p) = Inr a \<and>
           ds_attrs nz = (if p = ''overwrite_conflicts''
                          then dict_update a (union_attrs (d0 # rest)) else a)"
proof -
  from assms obtain cg where
    cg: "concat_group cfg sm p g (d0 # rest) = Inr cg" and nz: "normalize_beam sm g cg = Inr nz"
    by (auto simp: built_group_def split: sum.splits)
  from concat_group_fields [OF cg] normalize_beam_frame [OF nz] show ?thesis
    by (auto simp del: merge_attrs.simps)
qed

subsection \<open>A group of the result in terms of the state before it\<close>

lemma process_groups_split:
  assumes "process_groups cfg es sm p (pre @ g # post) s = Inr s'"
  shows "\<exists>s1 s2. process_groups cfg es sm p pre s = Inr s1 \<and>
           process_group cfg es sm p g s1 = Inr s2 \<and>
           process_groups cfg es sm p post s2 = Inr s'"
  using assms by (auto simp: process_groups_append split: sum.splits)

lemma repair_time_repaired:
  "fst (repair_time nz s) = repaired nz s"
  by (simp add: repair_time_def repaired_def Let_def)

lemma process_group_stored:
  assumes "process_group cfg es sm p g s1 = Inr s2" and "\<not> special g"
      and "group_datasets es g \<noteq> []"
  shows "\<exists>nz. built_group cfg sm p es g = Inr nz \<and>
           groups (result s2) g = Some (drop_dims ''concat_dim'' (repaired nz s1))"
proof -
  let ?s = "snapshot_attrs g (group_datasets es g) s1"
  from assms(1) obtain nz rp s3 where
    nz: "built_group cfg sm p es g = Inr nz" and
    rp: "repair_time nz ?s = (rp, s3)" and s2: "s2 = store g (Some rp) s3"
    by (auto simp: process_group_concat [OF assms(2,3)] split: sum.splits prod.splits)
  have "rp = repaired nz ?s" using repair_time_repaired [of nz ?s] rp by simp
  also have "\<dots> = repaired nz s1" by (simp add: repaired_def)
  finally show ?thesis using nz s2 by simp
qed

lemma combine_stored:
  assumes "combine_echodata cfg es p = Inr (r, w)" and "check_models None es = Inr sm"
      and "group_map cfg = pre @ g # post" and "g \<notin> set post" and "\<not> special g"
      and "group_datasets es g \<noteq> []"
  shows "\<exists>s1 s2 nz. process_groups cfg es sm p pre initial_state = Inr s1 \<and>
           process_group cfg es sm p g s1 = Inr s2 \<and>
           built_group cfg sm p es g = Inr nz \<and>
           groups r g = Some (drop_dims ''concat_dim'' (repaired nz s1))"
proof -
  have ne: "es \<noteq> []" using assms(6) by (auto simp: group_datasets_def List.map_filter_def)
  from combine_InrD [OF assms(1) ne] assms(2) obtain s r1 where
    s: "process_groups cfg es sm p (group_map cfg) initial_state = Inr s" and
    r1: "save_old_ping_time s = Inr r1" and
    r: "save_attrs (old_attrs s) (map fst (old_attrs s)) r1 = Inr r" by auto
  from process_groups_split [OF s [unfolded assms(3)]] obtain s1 s2 where
    s1: "process_groups cfg es sm p pre initial_state = Inr s1" and
    s2: "process_group cfg es sm p g s1 = Inr s2" and
    post: "process_groups cfg es sm p post s2 = Inr s" by blast
  from process_group_stored [OF s2 assms(5,6)] obtain nz where
    nz: "built_group cfg sm p es g = Inr nz"
        "groups (result s2) g = Some (drop_dims ''concat_dim'' (repaired nz s1))" by blast
  have gp: "g \<noteq> ''provenance''" using assms(5) by (auto simp: special_def)
  have "groups r g = groups (result s) g"
    using save_attrs_other [OF r gp] save_old_ping_time_other [OF r1 gp] by simp
  also have "\<dots> = groups (result s2) g" using process_groups_other [OF post assms(4)] .
  finally show ?thesis using s1 s2 nz by auto
qed

subsection \<open>The first detection fills the cache\<close>

lemma process_groups_find:
  assumes "process_groups cfg es sm p gs s = Inr s'" and "old_ping_time s = None"
  shows "case find (detected cfg sm p es) gs of
           None \<Rightarrow> old_ping_time s' = None \<and> new_ping_time s' = new_ping_time s \<and>
                   warnings s' = warnings s
         | Some f \<Rightarrow>
             (\<exists>nz pt. built_group cfg sm p es f = Inr nz \<and>
                ds_times nz ''ping_time'' = Some pt \<and> old_ping_time s' = Some pt \<and>
                new_ping_time s' = Some (pt\<lparr>var_values := correct (var_values pt)\<rparr>) \<and>
                warnings s' = warnings s @ [msg_reversal])"
  using assms
proof (induction gs arbitrary: s)
  case Nil
  then show ?case by simp
next
  case (Cons g gs)
  from Cons.prems(1) obtain s1 where
    s1: "process_group cfg es sm p g s = Inr s1" and
    rest: "process_groups cfg es sm p gs s1 = Inr s'"
    by (auto split: sum.splits)
  show ?case
  proof (cases "detected cfg sm p es g")
    case True
    from process_group_first_detection [OF s1 Cons.prems(2) True] obtain nz pt where
      f: "built_group cfg sm p es g = Inr nz" "ds_times nz ''ping_time'' = Some pt"
         "old_ping_time s1 = Some pt"
         "new_ping_time s1 = Some (pt\<lparr>var_values := correct (var_values pt)\<rparr>)"
         "warnings s1 = warnings s @ [msg_reversal]" by blast
    have "old_ping_time s1 \<noteq> None" using f(3) by simp
    from process_groups_cached [OF rest this] f True show ?thesis by simp
  next
    case False
    from process_group_undetected [OF s1 False] Cons.prems(2)
    have keep: "old_ping_time s1 = None" "new_ping_time s1 = new_ping_time s"
               "warnings s1 = warnings s" by simp_all
    from Cons.IH [OF rest keep(1)] keep False show ?thesis
      by (auto split: option.splits)
  qed
qed

lemma initial_state_fields [simp]:
  "old_ping_time initial_state = None" "new_ping_time initial_state = None"
  "warnings initial_state = []" "old_attrs initial_state = []"
  "groups (result initial_state) g = None"
  by (simp_all add: initial_state_def EchoData_def)

lemma find_None_iff_detected:
  "find P gs = None \<longleftrightarrow> (\<forall>g\<in>set gs. \<not> P g)"
  by (induction gs) auto

lemma prefix_cache:
  assumes "process_groups cfg es sm p pre initial_state = Inr s1"
  shows "(old_ping_time s1 = None \<longleftrightarrow> (\<forall>h\<in>set pre. \<not> detected cfg sm p es h)) \<and>
         warnings s1 = (if \<exists>h\<in>set pre. detected cfg sm p es h then [msg_reversal] else [])"
proof (cases "find (detected cfg sm p es) pre")
  case None
  with process_groups_find [OF assms] show ?thesis
    by (auto simp: find_None_iff_detected)
next
  case (Some f)
  then have "\<exists>h\<in>set pre. detected cfg sm p es h"
    using find_None_iff_detected [of "detected cfg sm p es" pre] by auto
  with process_groups_find [OF assms] Some show ?thesis by auto
qed

lemma process_group_warning:
  assumes "process_group cfg es sm p g s1 = Inr s2"
  shows "warnings s2 = (if detected cfg sm p es g \<and> old_ping_time s1 = None
                        then warnings s1 @ [msg_reversal] else warnings s1)"
proof (cases "detected cfg sm p es g")
  case False
  then show ?thesis using process_group_undetected [OF assms] by simp
next
  case True
  show ?thesis
  proof (cases "old_ping_time s1 = None")
    case None: True
    from process_group_first_detection [OF assms None True] show ?thesis using True None by auto
  next
    case False
    from process_group_cached [OF assms False] show ?thesis using False by simp
  qed
qed

subsection \<open>Groups copied from the first record\<close>


subsection \<open>The sample call, group by group\<close>

lemma ek60_dims:
  "get_or_default (concat_dims ek60_spec) ''environment'' = Inr ''ping_time''"
  "get_or_default (concat_dims ek60_spec) ''vendor'' = Inr ''ping_time''"
  by (simp_all add: get_or_default_def ek60_spec_def)

lemma sample_built_times:
  assumes "built_group cfg0 (Some ''EK60'') p es g = Inr nz"
      and "group_datasets es g = d0 # rest"
      and "g = ''environment'' \<or> g = ''vendor''"
  shows "ds_times nz = concat_vars ''ping_time'' ds_times d0 (d0 # rest)"
  using built_group_fields [OF assms(1,2)] assms(3) cfg0_facts(1) ek60_dims by auto

lemma sample_axes:
  "concat_vars ''ping_time'' ds_times env1 [env1, env2] ''ping_time'' =
     Some (time_axis [10, 20, 15, 30, 40])"
  "concat_vars ''ping_time'' ds_times ven1 [ven1] ''ping_time'' = Some (time_axis [1, 2, 3])"
  "concat_vars ''ping_time'' ds_times env1 [env1] ''ping_time'' = Some (time_axis [10, 20, 15])"
  "concat_vars ''ping_time'' ds_times ven_rev [ven_rev] ''ping_time'' = Some (time_axis [5, 4])"
  by (simp_all add: concat_vars_def values_of_def env1_def env2_def ven1_def ven_rev_def
        time_axis_def)

lemma sample_built:
  "\<exists>nz. built_group cfg0 (Some ''EK60'') ''override'' [ed1, ed2] ''environment'' = Inr nz \<and>
        ds_times nz ''ping_time'' = Some (time_axis [10, 20, 15, 30, 40])"
  "\<exists>nz. built_group cfg0 (Some ''EK60'') ''override'' [ed1, ed2] ''vendor'' = Inr nz \<and>
        ds_times nz ''ping_time'' = Some (time_axis [1, 2, 3])"
proof -
  have ok: "''override'' = ''override'' \<or> ''override'' = ''drop'' \<or>
            ''override'' = ''overwrite_conflicts''" by simp
  from built_group_total [OF cfg0_facts(1-3) ok, of "''environment''" "[ed1, ed2]"]
  obtain nz where nz: "built_group cfg0 (Some ''EK60'') ''override'' [ed1, ed2] ''environment'' = Inr nz"
    by auto
  from sample_built_times [OF nz group_datasets_samples(1)] sample_axes(1)
  show "\<exists>nz. built_group cfg0 (Some ''EK60'') ''override'' [ed1, ed2] ''environment'' = Inr nz \<and>
        ds_times nz ''ping_time'' = Some (time_axis [10, 20, 15, 30, 40])"
    using nz by simp
  from built_group_total [OF cfg0_facts(1-3) ok, of "''vendor''" "[ed1, ed2]"]
  obtain nv where nv: "built_group cfg0 (Some ''EK60'') ''override'' [ed1, ed2] ''vendor'' = Inr nv"
    by auto
  from sample_built_times [OF nv group_datasets_samples(2)] sample_axes(2)
  show "\<exists>nz. built_group cfg0 (Some ''EK60'') ''override'' [ed1, ed2] ''vendor'' = Inr nz \<and>
        ds_times nz ''ping_time'' = Some (time_axis [1, 2, 3])"
    using nv by simp
qed

lemma sample_detected:
  "detected cfg0 (Some ''EK60'') ''override'' [ed1, ed2] ''environment''"
  "\<not> detected cfg0 (Some ''EK60'') ''override'' [ed1, ed2] ''vendor''"
  "\<not> detected cfg0 (Some ''EK60'') ''override'' [ed1, ed2] ''top''"
  using sample_built
  by (auto simp: detected_def special_def group_datasets_samples has_reversal_def time_axis_def)









text \<open>
  C4. The call returns with the reversal warning exactly once when a reversal is detected
  at some group, and with no warning otherwise. Along the loop, the step at a group adds
  the warning exactly when a reversal is detected at this group and at no group before
  it; every other step leaves the warnings as they are.
\<close>

theorem warning_exactly_once:
  assumes "combine_echodata cfg es p = Inr (r, w)" and "check_models None es = Inr sm"
  shows "w = (if \<exists>g\<in>set (group_map cfg). detected cfg sm p es g then [msg_reversal] else []) \<and>
         (es \<noteq> [] \<longrightarrow>
           (\<forall>pre g post. group_map cfg = pre @ g # post \<longrightarrow>
             (\<exists>s1 s2. process_groups cfg es sm p pre initial_state = Inr s1 \<and>
                process_group cfg es sm p g s1 = Inr s2 \<and>
                warnings s2 =
                  (if detected cfg sm p es g \<and> (\<forall>h\<in>set pre. \<not> detected cfg sm p es h)
                   then warnings s1 @ [msg_reversal] else warnings s1))))"
proof (cases "es = []")
  case True
  then have "w = []" using assms(1) by (simp add: combine_echodata_def)
  moreover have "\<not> detected cfg sm p es g" for g
    using True by (simp add: detected_def group_datasets_def List.map_filter_def)
  ultimately show ?thesis using True by simp
next
  case False
  from combine_InrD [OF assms(1) False] assms(2) obtain s where
    s: "process_groups cfg es sm p (group_map cfg) initial_state = Inr s" and
    w: "w = warnings s" by auto
  have first: "w = (if \<exists>g\<in>set (group_map cfg). detected cfg sm p es g then [msg_reversal] else [])"
    using prefix_cache [OF s] w by simp
  have "\<exists>s1 s2. process_groups cfg es sm p pre initial_state = Inr s1 \<and>
          process_group cfg es sm p g s1 = Inr s2 \<and>
          warnings s2 =
            (if detected cfg sm p es g \<and> (\<forall>h\<in>set pre. \<not> detected cfg sm p es h)
             then warnings s1 @ [msg_reversal] else warnings s1)"
    if gm: "group_map cfg = pre @ g # post" for pre g post
  proof -
    from process_groups_split [OF s [unfolded gm]] obtain s1 s2 where
      s1: "process_groups cfg es sm p pre initial_state = Inr s1" and
      s2: "process_group cfg es sm p g s1 = Inr s2" by blast
    from process_group_warning [OF s2] prefix_cache [OF s1] s1 s2 show ?thesis by auto
  qed
  then show ?thesis using first by blast
qed

theorem warning_exactly_once_witness:
  "check_models None [ed1, ed2] = Inr (Some ''EK60'') \<and>
   (\<exists>g\<in>set (group_map cfg0). detected cfg0 (Some ''EK60'') ''override'' [ed1, ed2] g) \<and>
   returned_warnings (combine_echodata cfg0 [ed1, ed2] ''override'') = Some [msg_reversal]"
proof -
  from combine_samples_return(1) obtain r w where
    rw: "combine_echodata cfg0 [ed1, ed2] ''override'' = Inr (r, w)" by blast
  have d: "\<exists>g\<in>set (group_map cfg0). detected cfg0 (Some ''EK60'') ''override'' [ed1, ed2] g"
    using sample_detected(1) cfg0_facts(7) by blast
  have "w = [msg_reversal]"
    using warning_exactly_once [OF rw check_models_samples(1)] d by simp
  then show ?thesis using rw d check_models_samples(1) by (simp add: returned_warnings_def)
qed

lemma find_Some_detected:
  "find P gs = Some f \<Longrightarrow> \<exists>h\<in>set gs. P h"
  by (induction gs) (auto split: if_splits)







section \<open>The attrs of the result\<close>

subsection \<open>Dict updates as maps\<close>


lemma keys_dict_update:
  "fst ` set (dict_update a b) = fst ` set a \<union> fst ` set b"
  unfolding dict_update_def
  by (induction b arbitrary: a) (auto simp: dom_update split: prod.splits)





subsection \<open>The union of the attrs\<close>






subsection \<open>A concatenated group of the result, field by field\<close>

lemma repaired_frame:
  "ds_dims (repaired nz s) = ds_dims nz" "ds_attrs (repaired nz s) = ds_attrs nz"
  "ds_strs (repaired nz s) = ds_strs nz"
  by (simp_all add: repaired_def coerce_frame)

lemma drop_dims_frame:
  "ds_dims (drop_dims d ds) = (ds_dims ds)(d := None)" "ds_attrs (drop_dims d ds) = ds_attrs ds"
  by (simp_all add: drop_dims_def)

lemma group_datasets_nonempty:
  "group_datasets es g \<noteq> [] \<Longrightarrow> es \<noteq> []"
  by (auto simp: group_datasets_def List.map_filter_def)

lemma combine_group_fields:
  assumes "combine_echodata cfg es p = Inr (r, w)" and "g \<in> set (group_map cfg)"
      and "\<not> special g" and "group_datasets es g = d0 # rest"
  shows "\<exists>out m spec cd a. groups r g = Some out \<and>
           check_models None es = Inr (Some m) \<and> SONAR_MODELS cfg m = Some spec \<and>
           get_or_default (concat_dims spec) g = Inr cd \<and>
           ds_dims out =
             ((ds_dims d0)(cd \<mapsto> sum_list (map (dim_size cd) (d0 # rest))))(''concat_dim'' := None) \<and>
           merge_attrs (map ds_attrs (d0 # rest))
             (if p = ''overwrite_conflicts'' then ''drop'' else p) = Inr a \<and>
           ds_attrs out = (if p = ''overwrite_conflicts''
                           then dict_update a (union_attrs (d0 # rest)) else a)"
proof -
  have ne: "group_datasets es g \<noteq> []" using assms(4) by simp
  from combine_InrD [OF assms(1) group_datasets_nonempty [OF ne]] obtain sm where
    sm: "check_models None es = Inr sm" by blast
  from split_list_last [OF assms(2)] obtain pre post where
    gm: "group_map cfg = pre @ g # post" and last: "g \<notin> set post" by blast
  from combine_stored [OF assms(1) sm gm last assms(3) ne] obtain s1 nz where
    nz: "built_group cfg sm p es g = Inr nz" and
    out: "groups r g = Some (drop_dims ''concat_dim'' (repaired nz s1))" by blast
  from built_group_fields [OF nz assms(4)] sm out show ?thesis
    by (auto simp: drop_dims_frame repaired_frame simp del: merge_attrs.simps)
qed


subsection \<open>Errors under the overwrite policy\<close>









lemma sample_attrs:
  "union_attrs [env1, env2] = [(''a'', ''2''), (''b'', ''3'')]"
  "\<forall>d\<in>set [env1, env2]. distinct (map fst (ds_attrs d))"
  "ds_attrs env1 = [(''a'', ''1'')]" "ds_attrs env2 = [(''a'', ''2''), (''b'', ''3'')]"
  by (simp_all add: union_attrs_def dict_update_def env1_def env2_def)

lemma sample_special:
  "\<not> special ''environment''" "\<not> special ''vendor''"
  by (simp_all add: special_def)



text \<open>
  C10. Without a \<open>combine_attrs\<close> argument the call is the call with \<open>override\<close>, and the
  attrs of every concatenated group of the result are those of the first contributing
  sub-dataset.
\<close>

theorem default_is_override:
  "combine_echodata_default cfg es = combine_echodata cfg es ''override'' \<and>
   (\<forall>r w g d0 rest. combine_echodata_default cfg es = Inr (r, w) \<longrightarrow>
      g \<in> set (group_map cfg) \<longrightarrow> \<not> special g \<longrightarrow> group_datasets es g = d0 # rest \<longrightarrow>
      (\<exists>out. groups r g = Some out \<and> ds_attrs out = ds_attrs d0))"
proof (intro conjI allI impI)
  show "combine_echodata_default cfg es = combine_echodata cfg es ''override''"
    by (simp add: combine_echodata_default_def)
next
  fix r w g d0 rest
  assume "combine_echodata_default cfg es = Inr (r, w)"
     and g: "g \<in> set (group_map cfg)" "\<not> special g" "group_datasets es g = d0 # rest"
  then have rw: "combine_echodata cfg es ''override'' = Inr (r, w)"
    by (simp add: combine_echodata_default_def)
  from combine_group_fields [OF rw g] show "\<exists>out. groups r g = Some out \<and> ds_attrs out = ds_attrs d0"
    by auto
qed

theorem default_is_override_witness:
  "group_datasets [ed1, ed2] ''environment'' = env1 # [env2] \<and>
   map_option ds_attrs
     (returned_group (combine_echodata_default cfg0 [ed1, ed2]) ''environment'') =
     Some [(''a'', ''1'')]"
proof -
  from combine_samples_return(1) obtain r w where
    rw: "combine_echodata_default cfg0 [ed1, ed2] = Inr (r, w)"
    by (auto simp: combine_echodata_default_def)
  from default_is_override [of cfg0 "[ed1, ed2]"] rw cfg0_facts(7) sample_special(1)
    group_datasets_samples(1)
  obtain out where "groups r ''environment'' = Some out" "ds_attrs out = ds_attrs env1"
    by blast
  then show ?thesis using rw
    by (simp add: returned_group_def group_datasets_samples sample_attrs)
qed

section \<open>The concatenated groups of the result\<close>

subsection \<open>The result group against the concatenation\<close>









section \<open>The attrs policy argument\<close>

subsection \<open>A policy the library does not know\<close>







end
